theory Spec2Isabelle
  imports Main
begin

section \<open>Formatting and parsing of integers\<close>

text \<open>
  Job identifiers are Go \<open>int64\<close> values, modelled as \<open>int\<close>.  The repository turns
  them into text with \<open>fmt.Sprint\<close> (the lease key) and \<open>%d\<close> (messages), and reads
  them back from the queue with \<open>strconv.ParseInt(s, 10, 64)\<close>.
\<close>

definition digit_char :: "nat \<Rightarrow> char" where
  "digit_char d = ''0123456789'' ! (d mod 10)"

fun digits :: "nat \<Rightarrow> string" where
  "digits n = (if n < 10 then [digit_char n] else digits (n div 10) @ [digit_char (n mod 10)])"

declare digits.simps [simp del]

definition Sprint :: "int \<Rightarrow> string" where
  "Sprint i = (if i < 0 then CHR ''-'' # digits (nat (- i)) else digits (nat i))"

datatype NumError = ErrSyntax | ErrRange

definition maxUint64 :: nat where
  "maxUint64 = 18446744073709551615"

definition MaxInt64 :: int where
  "MaxInt64 = 9223372036854775807"

definition MinInt64 :: int where
  "MinInt64 = - 9223372036854775808"

definition is_digit :: "char \<Rightarrow> bool" where
  "is_digit c = (c \<in> set ''0123456789'')"

definition digit_val :: "char \<Rightarrow> nat" where
  "digit_val c = of_char c - 48"

text \<open>
  The digit loop of \<open>strconv.ParseUint\<close> for base 10 and 64 bits: \<open>n\<close> is the value
  accumulated so far.  A byte that is no decimal digit ends the loop with a syntax error
  and value 0; a digit that would overflow ends it at once with a range error and the
  largest value, before the remaining bytes are looked at.
\<close>

fun parse_digits :: "nat \<Rightarrow> string \<Rightarrow> nat \<times> NumError option" where
  "parse_digits n [] = (n, None)"
| "parse_digits n (c # cs) =
     (if \<not> is_digit c then (0, Some ErrSyntax)
      else if n \<ge> maxUint64 div 10 + 1 then (maxUint64, Some ErrRange)
      else if n * 10 + digit_val c > maxUint64 then (maxUint64, Some ErrRange)
      else parse_digits (n * 10 + digit_val c) cs)"

definition ParseUint :: "string \<Rightarrow> nat \<times> NumError option" where
  "ParseUint s = (if s = [] then (0, Some ErrSyntax) else parse_digits 0 s)"

text \<open>
  \<open>strconv.ParseInt(s, 10, 64)\<close>: an optional sign, then \<open>ParseUint\<close>.  On a syntax
  error the value is 0; on a range error it is the bound of \<open>int64\<close> with the sign of
  the input.
\<close>

definition ParseInt :: "string \<Rightarrow> int \<times> NumError option" where
  "ParseInt s0 =
     (if s0 = [] then (0, Some ErrSyntax)
      else
        let neg = (hd s0 = CHR ''-'');
            s = (if hd s0 = CHR ''+'' \<or> hd s0 = CHR ''-'' then tl s0 else s0);
            (un, err) = ParseUint s
        in if err = Some ErrSyntax then (0, Some ErrSyntax)
           else if \<not> neg \<and> un \<ge> 2 ^ 63 then (MaxInt64, Some ErrRange)
           else if neg \<and> un > 2 ^ 63 then (MinInt64, Some ErrRange)
           else (if neg then - int un else int un, None))"

section \<open>The repository: record store, dispatch queue and lease lock\<close>

record downloadRequest =
  ID :: int
  UserID :: int
  Link :: string
  FileName :: string
  Completed :: bool
  Error :: string

text \<open>
  The Go \<open>repository\<close> holds a Postgres connection \<open>db\<close> and a Redis client \<open>rdb\<close>.
  The state behind them is what the SQL statements and Redis commands of the source read
  and write:
  \<^item> \<open>downloads\<close>: the rows of table \<open>downloads\<close>, in the order a scan returns them;
  \<^item> \<open>locks\<close>: the string keys of Redis set by \<open>SETNX\<close>, each with its value and its
    absolute expiry time (\<open>None\<close>: no expiry).  A key whose expiry has passed is absent;
  \<^item> \<open>queue\<close>: the Redis list under \<open>DownloadRequestsKey\<close>, left end first.  Lease keys
    are decimal numerals, so they never name this list;
  \<^item> \<open>db_faults\<close>, \<open>rdb_faults\<close>: what the next calls to the server meet, one entry per
    call: \<open>Some msg\<close> is a failure of that call (connection lost, context cancelled) with
    that message, \<open>None\<close> and the empty script are a call that reaches the server.
\<close>

record repository =
  downloads :: "downloadRequest list"
  db_faults :: "string option list"
  locks :: "string \<rightharpoonup> string \<times> nat option"
  queue :: "string list"
  rdb_faults :: "string option list"

definition NoMoreDownloadRequestErr :: string where
  "NoMoreDownloadRequestErr = ''There is no more download request in queue''"

definition db_call :: "repository \<Rightarrow> string option \<times> repository" where
  "db_call r = (case db_faults r of [] \<Rightarrow> (None, r) | f # fs \<Rightarrow> (f, r\<lparr>db_faults := fs\<rparr>))"

definition rdb_call :: "repository \<Rightarrow> string option \<times> repository" where
  "rdb_call r = (case rdb_faults r of [] \<Rightarrow> (None, r) | f # fs \<Rightarrow> (f, r\<lparr>rdb_faults := fs\<rparr>))"

text \<open>Go's \<open>int64\<close> product wraps around.\<close>

definition wrap64 :: "int \<Rightarrow> int" where
  "wrap64 x = (x + 2 ^ 63) mod 2 ^ 64 - 2 ^ 63"

definition GetDownloadRequest :: "repository \<Rightarrow> int \<Rightarrow> (string + downloadRequest) \<times> repository" where
  "GetDownloadRequest r downloadID =
     (case db_call r of
        (Some e, r') \<Rightarrow>
          (Inl (''could not retrieve download request '' @ Sprint downloadID @ '': '' @ e), r')
      | (None, r') \<Rightarrow>
          (case filter (\<lambda>req. ID req = downloadID) (downloads r') of
             [] \<Rightarrow> (Inl (''download request '' @ Sprint downloadID @ '' not found''), r')
           | req # _ \<Rightarrow> (Inr req, r')))"

text \<open>
  \<open>SELECT ... FROM downloads OFFSET page*limit LIMIT limit\<close>: the statement has no
  \<open>WHERE\<close> clause and \<open>userID\<close> is no parameter of it.  Postgres rejects a negative
  \<open>OFFSET\<close> or \<open>LIMIT\<close>.
\<close>

definition GetDownloadRequests ::
  "repository \<Rightarrow> int \<Rightarrow> int \<Rightarrow> int \<Rightarrow> (string + downloadRequest list) \<times> repository" where
  "GetDownloadRequests r userID page limit =
     (case db_call r of
        (Some e, r') \<Rightarrow> (Inl (''could not retrieve download requests: '' @ e), r')
      | (None, r') \<Rightarrow>
          if wrap64 (page * limit) < 0 then
            (Inl ''could not retrieve download requests: OFFSET must not be negative'', r')
          else if limit < 0 then
            (Inl ''could not retrieve download requests: LIMIT must not be negative'', r')
          else (Inr (take (nat limit) (drop (nat (wrap64 (page * limit))) (downloads r'))), r'))"

definition CompleteDownloadRequest :: "repository \<Rightarrow> int \<Rightarrow> string option \<times> repository" where
  "CompleteDownloadRequest r downloadID =
     (case db_call r of
        (Some e, r') \<Rightarrow>
          (Some (''could not complete download request '' @ Sprint downloadID @ '': '' @ e), r')
      | (None, r') \<Rightarrow>
          (None, r'\<lparr>downloads :=
             map (\<lambda>req. if ID req = downloadID then req\<lparr>Completed := True\<rparr> else req)
               (downloads r')\<rparr>))"

definition MarkError :: "repository \<Rightarrow> int \<Rightarrow> string \<Rightarrow> string option \<times> repository" where
  "MarkError r downloadID downloadErr =
     (case db_call r of
        (Some e, r') \<Rightarrow>
          (Some (''could not update download request '' @ Sprint downloadID @ '' error: '' @ e), r')
      | (None, r') \<Rightarrow>
          (None, r'\<lparr>downloads :=
             map (\<lambda>req. if ID req = downloadID then req\<lparr>Error := downloadErr\<rparr> else req)
               (downloads r')\<rparr>))"

text \<open>\<open>LPUSH\<close> adds at the left end of the list, \<open>RPOP\<close> takes from the right end.\<close>

definition PushDownloadRequest :: "repository \<Rightarrow> int \<Rightarrow> string option \<times> repository" where
  "PushDownloadRequest r downloadID =
     (case rdb_call r of
        (Some e, r') \<Rightarrow>
          (Some (''could not push download request '' @ Sprint downloadID @ '': '' @ e), r')
      | (None, r') \<Rightarrow> (None, r'\<lparr>queue := Sprint downloadID # queue r'\<rparr>))"

text \<open>
  The error of \<open>ParseInt\<close> is assigned to the blank identifier: whatever value
  \<open>ParseInt\<close> leaves is returned with a nil error.
\<close>

definition PopDownloadRequest :: "repository \<Rightarrow> (int \<times> string option) \<times> repository" where
  "PopDownloadRequest r =
     (case rdb_call r of
        (Some e, r') \<Rightarrow> ((0, Some (''could not pop download request: '' @ e)), r')
      | (None, r') \<Rightarrow>
          if queue r' = [] then ((0, Some NoMoreDownloadRequestErr), r')
          else ((fst (ParseInt (last (queue r'))), None), r'\<lparr>queue := butlast (queue r')\<rparr>))"

text \<open>
  The lease commands take the time \<open>now\<close> at which the server runs them.  go-redis sends
  \<open>SETNX\<close> without expiry for a zero duration, and \<open>EXPIRE\<close> with a timeout of zero
  deletes the key.
\<close>

definition alive :: "nat \<Rightarrow> (string \<times> nat option) option \<Rightarrow> bool" where
  "alive now e = (case e of None \<Rightarrow> False | Some (_, None) \<Rightarrow> True | Some (_, Some t) \<Rightarrow> now < t)"

definition AcquireLock :: "repository \<Rightarrow> nat \<Rightarrow> int \<Rightarrow> nat \<Rightarrow> (string + bool) \<times> repository" where
  "AcquireLock r now downloadID expiration =
     (case rdb_call r of
        (Some e, r') \<Rightarrow> (Inl (''Error acquiring lock: '' @ e), r')
      | (None, r') \<Rightarrow>
          if alive now (locks r' (Sprint downloadID)) then (Inr False, r')
          else (Inr True,
                r'\<lparr>locks := (locks r')(Sprint downloadID \<mapsto>
                  (''locked'', if expiration = 0 then None else Some (now + expiration)))\<rparr>))"

definition ExtendLock :: "repository \<Rightarrow> nat \<Rightarrow> int \<Rightarrow> nat \<Rightarrow> (string + bool) \<times> repository" where
  "ExtendLock r now downloadID expiration =
     (case rdb_call r of
        (Some e, r') \<Rightarrow> (Inl (''Error extending lock: '' @ e), r')
      | (None, r') \<Rightarrow>
          (case locks r' (Sprint downloadID) of
             None \<Rightarrow> (Inr False, r')
           | Some (v, t) \<Rightarrow>
               if \<not> alive now (Some (v, t)) then (Inr False, r')
               else if expiration = 0 then
                 (Inr True, r'\<lparr>locks := (locks r')(Sprint downloadID := None)\<rparr>)
               else
                 (Inr True,
                  r'\<lparr>locks := (locks r')(Sprint downloadID \<mapsto> (v, Some (now + expiration)))\<rparr>)))"

definition ReleaseLock :: "repository \<Rightarrow> int \<Rightarrow> string option \<times> repository" where
  "ReleaseLock r downloadID =
     (case rdb_call r of
        (Some e, r') \<Rightarrow> (Some (''Error releasing lock: '' @ e), r')
      | (None, r') \<Rightarrow> (None, r'\<lparr>locks := (locks r')(Sprint downloadID := None)\<rparr>))"




text \<open>
  The shape of a decimal integer: an optional sign, then one or more decimal digits.
\<close>

definition decimal_syntax :: "string \<Rightarrow> bool" where
  "decimal_syntax s =
     (let u = (if s \<noteq> [] \<and> (hd s = CHR ''+'' \<or> hd s = CHR ''-'') then tl s else s)
      in u \<noteq> [] \<and> list_all is_digit u)"

section \<open>The handler\<close>

text \<open>
  \<open>handler.GetDownloadRequests\<close>: the user id comes from the token, \<open>page\<close> and
  \<open>limit\<close> from the route parameters through \<open>strconv.Atoi\<close>, with 0 taken when
  \<open>Atoi\<close> fails.  The answer is the HTTP status with the list, or status 500.
\<close>

definition Atoi_or_0 :: "string \<Rightarrow> int" where
  "Atoi_or_0 s = (case ParseInt s of (v, None) \<Rightarrow> v | (_, Some _) \<Rightarrow> 0)"

definition handler_GetDownloadRequests ::
  "repository \<Rightarrow> int \<Rightarrow> string \<Rightarrow> string \<Rightarrow> (int \<times> (string + downloadRequest list)) \<times> repository" where
  "handler_GetDownloadRequests r userID pageParam limitParam =
     (let page = Atoi_or_0 pageParam; limit = Atoi_or_0 limitParam
      in case GetDownloadRequests r userID page limit of
           (Inl err, r') \<Rightarrow> ((500, Inl ''something went wrong''), r')
         | (Inr ds, r') \<Rightarrow> ((200, Inr ds), r'))"

section \<open>The consumer\<close>

text \<open>Durations and times are in nanoseconds, the unit of \<open>time.Duration\<close>.\<close>

definition LinkProcessingExpTime :: nat where
  "LinkProcessingExpTime = 60 * 1000000000"

definition DownloadBuffSizeBytes :: nat where
  "DownloadBuffSizeBytes = 131072"

definition FlushThresholdBytes :: nat where
  "FlushThresholdBytes = 8 * DownloadBuffSizeBytes"

type_synonym bytes = "char list"

text \<open>
  What the worker talks to besides the repository.

  A response body is the list of results that successive calls of \<open>resp.Body.Read\<close>
  return: the bytes put into the buffer and the error returned with them.  By the
  contract of \<open>io.Reader\<close> a call may return bytes together with \<open>io.EOF\<close>; once the
  list is used up, \<open>Read\<close> returns no bytes and \<open>io.EOF\<close>.

  \<open>client.Do\<close> either fails, with a nil response unless a redirect policy failed, or
  returns a response.
\<close>

datatype read_error = EOF | ReadFailed string

record response =
  StatusCode :: int
  Body :: "(bytes \<times> read_error option) list"

datatype do_result = DoFailed string "response option" | DoOK response

record request =
  req_method :: string
  req_url :: string
  req_range :: string
  req_user_agent :: string

datatype fs_event = Written string nat | Synced string

text \<open>
  The state one attempt reads and writes:
  \<^item> \<open>repo\<close>: the record store, the queue and the leases;
  \<^item> \<open>files\<close>: the contents of the local files, and \<open>fs_faults\<close>, the failures that the
    next file operations (open, stat, write, sync) meet, one entry per operation: a
    message, and for a write the number of bytes that were written before it failed;
  \<^item> \<open>fs_log\<close>: the writes (with the number of bytes written) and the completed syncs,
    oldest first;
  \<^item> \<open>http_log\<close>: the requests handed to \<open>client.Do\<close>, oldest first;
  \<^item> \<open>goroutines\<close>: how many lease-renewal goroutines started by attempts have not
    returned.
\<close>

record world =
  repo :: repository
  files :: "string \<rightharpoonup> bytes"
  fs_faults :: "(string \<times> nat) option list"
  fs_log :: "fs_event list"
  http_log :: "request list"
  goroutines :: nat

text \<open>
  The surroundings of one attempt: the time, the remote server behind \<open>client.Do\<close>, the
  URLs that \<open>http.NewRequest\<close> rejects, the iteration of the streaming loop from which on
  \<open>ctx.Done()\<close> is ready (\<open>None\<close>: the context is never cancelled, as for the
  \<open>context.Background()\<close> that \<open>main\<close> passes) with the text of \<open>ctx.Err()\<close>, and the
  times at which the renewal ticker fires while the attempt streams.
\<close>

record env =
  now :: nat
  net :: "request \<Rightarrow> do_result"
  url_error :: "string \<Rightarrow> string option"
  cancel_at :: "nat option"
  ctx_err :: string
  ticks :: "nat list"

datatype outcome = Returned "string option" | Panicked string

definition fs_call :: "world \<Rightarrow> (string \<times> nat) option \<times> world" where
  "fs_call w = (case fs_faults w of [] \<Rightarrow> (None, w) | f # fs \<Rightarrow> (f, w\<lparr>fs_faults := fs\<rparr>))"

text \<open>
  \<open>openFile\<close>: \<open>os.OpenFile\<close> with \<open>O_APPEND|O_CREATE|O_RDWR\<close> creates the file empty
  when it is absent; \<open>file.Stat\<close> then gives its size.
\<close>

definition openFile :: "world \<Rightarrow> string \<Rightarrow> (string + nat) \<times> world" where
  "openFile w fileName =
     (case fs_call w of
        (Some (err, _), w1) \<Rightarrow> (Inl err, w1)
      | (None, w1) \<Rightarrow>
          (let content = (case files w1 fileName of None \<Rightarrow> [] | Some c \<Rightarrow> c);
               w2 = w1\<lparr>files := (files w1)(fileName \<mapsto> content)\<rparr>
           in case fs_call w2 of
                (Some (err, _), w3) \<Rightarrow> (Inl err, w3)
              | (None, w3) \<Rightarrow> (Inr (length content), w3)))"

text \<open>\<open>file.Write\<close> on a file opened with \<open>O_APPEND\<close> adds at the end of the file.\<close>

definition file_append :: "world \<Rightarrow> string \<Rightarrow> bytes \<Rightarrow> world" where
  "file_append w fileName data =
     w\<lparr>files := (files w)(fileName \<mapsto> (case files w fileName of None \<Rightarrow> [] | Some c \<Rightarrow> c) @ data),
       fs_log := fs_log w @ [Written fileName (length data)]\<rparr>"

definition file_Write :: "world \<Rightarrow> string \<Rightarrow> bytes \<Rightarrow> string option \<times> world" where
  "file_Write w fileName data =
     (case fs_call w of
        (Some (err, k), w1) \<Rightarrow> (Some err, file_append w1 fileName (take k data))
      | (None, w1) \<Rightarrow> (None, file_append w1 fileName data))"

definition file_Sync :: "world \<Rightarrow> string \<Rightarrow> string option \<times> world" where
  "file_Sync w fileName =
     (case fs_call w of
        (Some (err, _), w1) \<Rightarrow> (Some err, w1)
      | (None, w1) \<Rightarrow> (None, w1\<lparr>fs_log := fs_log w1 @ [Synced fileName]\<rparr>))"

text \<open>
  \<open>dbErr := w.repo.MarkError(...); if dbErr != nil { log.Println(dbErr) }\<close>: the error
  of the store is logged and dropped.
\<close>

definition mark_error :: "world \<Rightarrow> int \<Rightarrow> string \<Rightarrow> world" where
  "mark_error w downloadID msg = w\<lparr>repo := snd (MarkError (repo w) downloadID msg)\<rparr>"

definition ctx_done :: "env \<Rightarrow> nat \<Rightarrow> bool" where
  "ctx_done e k = (case cancel_at e of None \<Rightarrow> False | Some c \<Rightarrow> c \<le> k)"

text \<open>The branch \<open>case <-ctx.Done()\<close> of the streaming loop.\<close>

definition on_cancel :: "env \<Rightarrow> int \<Rightarrow> world \<Rightarrow> string option \<times> world" where
  "on_cancel e downloadID w = (Some (ctx_err e), mark_error w downloadID (ctx_err e))"

text \<open>
  The branch \<open>err == io.EOF\<close>: the last sync, then \<open>CompleteDownloadRequest\<close>.  The
  bytes that came with \<open>io.EOF\<close> are not looked at.
\<close>

definition on_eof :: "string \<Rightarrow> int \<Rightarrow> string \<Rightarrow> world \<Rightarrow> string option \<times> world" where
  "on_eof link downloadID fileName w =
     (case file_Sync w fileName of
        (Some err, w1) \<Rightarrow>
          (Some (''Error syncing file (for the last time) link '' @ link @ '': '' @ err),
           mark_error w1 downloadID err)
      | (None, w1) \<Rightarrow>
          (case CompleteDownloadRequest (repo w1) downloadID of
             (Some err, r2) \<Rightarrow> (Some err, mark_error (w1\<lparr>repo := r2\<rparr>) downloadID err)
           | (None, r2) \<Rightarrow> (None, w1\<lparr>repo := r2\<rparr>)))"

text \<open>
  One iteration of the streaming loop at iteration number \<open>k\<close>, with \<open>bytesRead\<close> bytes
  counted since the last sync and \<open>rd\<close> the result of this iteration's \<open>Read\<close>:
  \<open>Inl\<close> is a return from the function, \<open>Inr\<close> the next value of \<open>bytesRead\<close>.
\<close>

definition iteration ::
  "env \<Rightarrow> string \<Rightarrow> int \<Rightarrow> string \<Rightarrow> nat \<Rightarrow> nat \<Rightarrow> bytes \<times> read_error option \<Rightarrow> world \<Rightarrow>
   (string option \<times> world) + (nat \<times> world)" where
  "iteration e link downloadID fileName k bytesRead rd w =
     (if ctx_done e k then Inl (on_cancel e downloadID w)
      else case snd rd of
        Some EOF \<Rightarrow> Inl (on_eof link downloadID fileName w)
      | Some (ReadFailed err) \<Rightarrow>
          Inl (Some (''Error reading from HTTP response for link '' @ link @ '': '' @ err),
               mark_error w downloadID err)
      | None \<Rightarrow>
          (case file_Write w fileName (fst rd) of
             (Some err, w1) \<Rightarrow>
               Inl (Some (''Error writing to file for link '' @ link @ '': '' @ err),
                    mark_error w1 downloadID err)
           | (None, w1) \<Rightarrow>
               if bytesRead + length (fst rd) \<ge> FlushThresholdBytes then
                 (case file_Sync w1 fileName of
                    (Some err, w2) \<Rightarrow>
                      Inl (Some (''Error syncing file for link '' @ link @ '': '' @ err),
                           mark_error w2 downloadID err)
                  | (None, w2) \<Rightarrow> Inr (0, w2))
               else Inr (bytesRead + length (fst rd), w1)))"

fun stream_loop ::
  "env \<Rightarrow> string \<Rightarrow> int \<Rightarrow> string \<Rightarrow> nat \<Rightarrow> nat \<Rightarrow> (bytes \<times> read_error option) list \<Rightarrow> world \<Rightarrow>
   string option \<times> world" where
  "stream_loop e link downloadID fileName k bytesRead [] w =
     (if ctx_done e k then on_cancel e downloadID w else on_eof link downloadID fileName w)"
| "stream_loop e link downloadID fileName k bytesRead (rd # body) w =
     (case iteration e link downloadID fileName k bytesRead rd w of
        Inl res \<Rightarrow> res
      | Inr (bytesRead', w') \<Rightarrow> stream_loop e link downloadID fileName (Suc k) bytesRead' body w')"

text \<open>
  The goroutine started before the loop: \<open>for { select { case <-ticker.C: ExtendLock;
  case <-ctx.Done(): return } }\<close>.  It is run on the signals its \<open>select\<close> receives,
  a tick with the time at which \<open>ExtendLock\<close> reaches the server, or the cancellation of
  the context.  The result says whether the goroutine has returned.  \<open>ticker.Stop()\<close>
  ends the ticks and sends nothing.
\<close>

datatype signal = Tick nat | Done

fun renewal :: "int \<Rightarrow> signal list \<Rightarrow> repository \<Rightarrow> bool \<times> repository" where
  "renewal downloadID [] r = (False, r)"
| "renewal downloadID (Tick t # ss) r =
     renewal downloadID ss (snd (ExtendLock r t downloadID LinkProcessingExpTime))"
| "renewal downloadID (Done # ss) r = (True, r)"

definition ticker_period :: nat where
  "ticker_period = LinkProcessingExpTime div 2"

text \<open>
  From the ticker to the end of the function.  The loop makes no call to Redis and the
  goroutine none to Postgres or the file, so the calls of the goroutine are run after
  those of the loop.  The context being cancelled, the goroutine receives \<open>Done\<close>.
\<close>

definition stream ::
  "env \<Rightarrow> string \<Rightarrow> int \<Rightarrow> string \<Rightarrow> (bytes \<times> read_error option) list \<Rightarrow> world \<Rightarrow>
   string option \<times> world" where
  "stream e link downloadID fileName body w =
     (case stream_loop e link downloadID fileName 0 0 body w of
        (res, w1) \<Rightarrow>
          (case renewal downloadID
                  (map Tick (ticks e) @ (if cancel_at e = None then [] else [Done])) (repo w1) of
             (returned, r2) \<Rightarrow>
               (res, w1\<lparr>repo := r2,
                        goroutines := goroutines w1 + (if returned then 0 else 1)\<rparr>)))"

definition new_request :: "string \<Rightarrow> nat \<Rightarrow> request" where
  "new_request link offset =
     \<lparr>req_method = ''GET'', req_url = link,
      req_range = ''bytes='' @ Sprint (int offset) @ ''-'',
      req_user_agent = ''Mozilla/5.0 (Windows NT 10.0; Win64; x64) AppleWebKit/537.36 (KHTML, like Gecko) Chrome/91.0.4472.124 Safari/537.36''\<rparr>"

text \<open>
  The part of \<open>processDownloadRequest\<close> that runs with the lease held, from \<open>openFile\<close>
  on.  After a failed \<open>client.Do\<close> the function does not return: it goes on to
  \<open>defer resp.Body.Close()\<close>, which dereferences the nil response and panics.
\<close>

definition fetch :: "env \<Rightarrow> world \<Rightarrow> int \<Rightarrow> downloadRequest \<Rightarrow> outcome \<times> world" where
  "fetch e w downloadID dr =
     (case openFile w (FileName dr) of
        (Inl err, w1) \<Rightarrow>
          (Returned (Some (''Failed to open file for download request '' @ Sprint downloadID
                            @ '': '' @ err)),
           mark_error w1 downloadID err)
      | (Inr offset, w1) \<Rightarrow>
          (case url_error e (Link dr) of
             Some err \<Rightarrow>
               (Returned (Some (''Failed to create HTTP request for link '' @ Link dr
                                 @ '': '' @ err)),
                mark_error w1 downloadID err)
           | None \<Rightarrow>
               (let req = new_request (Link dr) offset;
                    w2 = w1\<lparr>http_log := http_log w1 @ [req]\<rparr>;
                    (resp, w3) =
                      (case net e req of
                         DoFailed err resp \<Rightarrow> (resp, mark_error w2 downloadID err)
                       | DoOK resp \<Rightarrow> (Some resp, w2))
                in case resp of
                     None \<Rightarrow>
                       (Panicked ''runtime error: invalid memory address or nil pointer dereference'',
                        w3)
                   | Some resp \<Rightarrow>
                       if StatusCode resp \<noteq> 206 \<and> StatusCode resp \<noteq> 200 then
                         (let err = ''Unexpected HTTP status code for link '' @ Link dr @ '': ''
                                    @ Sprint (StatusCode resp)
                          in (Returned (Some err), mark_error w3 downloadID err))
                       else
                         (case stream e (Link dr) downloadID (FileName dr) (Body resp) w3 of
                            (res, w4) \<Rightarrow> (Returned res, w4)))))"

text \<open>
  \<open>processDownloadRequest\<close>.  \<open>defer w.repo.ReleaseLock(ctx, downloadID)\<close> is registered
  once the lease is held; it runs when the function returns and when it panics, and its
  error is dropped.
\<close>

definition processDownloadRequest :: "env \<Rightarrow> world \<Rightarrow> int \<Rightarrow> outcome \<times> world" where
  "processDownloadRequest e w downloadID =
     (case GetDownloadRequest (repo w) downloadID of
        (Inl err, r1) \<Rightarrow>
          (Returned (Some (''Failed to retrieve download request '' @ Sprint downloadID
                            @ '': '' @ err)),
           w\<lparr>repo := r1\<rparr>)
      | (Inr dr, r1) \<Rightarrow>
          (case AcquireLock r1 (now e) downloadID LinkProcessingExpTime of
             (Inl err, r2) \<Rightarrow>
               (Returned (Some (''Failed to acquire lock: '' @ err)), w\<lparr>repo := r2\<rparr>)
           | (Inr acquired, r2) \<Rightarrow>
               if \<not> acquired then
                 (Returned (Some (''Download request '' @ Sprint downloadID
                                   @ '' is already being processed:'')),
                  w\<lparr>repo := r2\<rparr>)
               else
                 (case fetch e (w\<lparr>repo := r2\<rparr>) downloadID dr of
                    (res, w') \<Rightarrow> (res, w'\<lparr>repo := snd (ReleaseLock (repo w') downloadID)\<rparr>))))"

text \<open>
  The worker loop \<open>run\<close>, on the list of its iterations: for each, whether \<open>ctx.Done()\<close>
  is ready at the top and the surroundings of the attempt it makes.  The loop of the
  source has no other exit than the cancellation, so the end of the list is a worker
  that is still polling.  A panic of the attempt is recovered nowhere: it ends the
  worker, and with it the process.
\<close>

datatype worker = Polling | Stopped | Crashed string

fun run :: "(bool \<times> env) list \<Rightarrow> world \<Rightarrow> worker \<times> world" where
  "run [] w = (Polling, w)"
| "run ((done, e) # es) w =
     (if done then (Stopped, w)
      else case PopDownloadRequest (repo w) of
        ((_, Some err), r1) \<Rightarrow> run es (w\<lparr>repo := r1\<rparr>)
      | ((downloadID, None), r1) \<Rightarrow>
          (case processDownloadRequest e (w\<lparr>repo := r1\<rparr>) downloadID of
             (Panicked msg, w') \<Rightarrow> (Crashed msg, w')
           | (Returned _, w') \<Rightarrow> run es w'))"

text \<open>
  The bytes written and not yet synced at the end of a log of file operations that
  starts with \<open>b\<close> such bytes.
\<close>

definition unflushed :: "nat \<Rightarrow> fs_event list \<Rightarrow> nat" where
  "unflushed b evs = foldl (\<lambda>acc ev. case ev of Written _ n \<Rightarrow> acc + n | Synced _ \<Rightarrow> 0) b evs"

text \<open>
  What the loop keeps of a log of file operations on file \<open>f\<close> that starts with \<open>b\<close>
  unsynced bytes: at every point of the log the unsynced bytes are fewer than the flush
  threshold plus one buffer, and wherever they have reached the threshold the next
  operation is the sync.
\<close>

definition flush_discipline :: "string \<Rightarrow> nat \<Rightarrow> fs_event list \<Rightarrow> bool" where
  "flush_discipline f b evs =
     ((\<forall>i \<le> length evs.
         unflushed b (take i evs) < FlushThresholdBytes + DownloadBuffSizeBytes) \<and>
      (\<forall>i < length evs.
         FlushThresholdBytes \<le> unflushed b (take i evs) \<longrightarrow> evs ! i = Synced f))"

section \<open>Properties of the repository\<close>

lemma rdb_call_no_faults: "rdb_faults r = [] \<Longrightarrow> rdb_call r = (None, r)"
  by (simp add: rdb_call_def)

lemma db_call_no_faults: "db_faults r = [] \<Longrightarrow> db_call r = (None, r)"
  by (simp add: db_call_def)

lemma rdb_call_frame:
  "downloads (snd (rdb_call r)) = downloads r \<and> locks (snd (rdb_call r)) = locks r \<and>
   queue (snd (rdb_call r)) = queue r \<and> db_faults (snd (rdb_call r)) = db_faults r"
  by (simp add: rdb_call_def split: list.splits)

lemma db_call_frame:
  "downloads (snd (db_call r)) = downloads r \<and> locks (snd (db_call r)) = locks r \<and>
   queue (snd (db_call r)) = queue r \<and> rdb_faults (snd (db_call r)) = rdb_faults r"
  by (simp add: db_call_def split: list.splits)


lemma AcquireLock_free:
  "rdb_faults r = [] \<Longrightarrow> \<not> alive t (locks r (Sprint downloadID)) \<Longrightarrow>
   AcquireLock r t downloadID expiration =
     (Inr True, r\<lparr>locks := (locks r)(Sprint downloadID \<mapsto>
        (''locked'', if expiration = 0 then None else Some (t + expiration)))\<rparr>)"
  by (simp add: AcquireLock_def rdb_call_no_faults)




text \<open>
  C8.  The list that \<open>GetDownloadRequests\<close> returns does not depend on \<open>userID\<close>, in the
  repository and through the handler: for the same store, page and limit any two callers
  get the same answer.  So a caller is given the requests of other users: user 1 receives
  the request that user 2 owns.
\<close>

theorem GetDownloadRequests_ignores_userID:
  "GetDownloadRequests r userID page limit = GetDownloadRequests r userID' page limit \<and>
   handler_GetDownloadRequests r userID pageParam limitParam =
     handler_GetDownloadRequests r userID' pageParam limitParam \<and>
   fst (GetDownloadRequests
          \<lparr>downloads = [\<lparr>ID = 5, UserID = 2, Link = ''http://a/b'', FileName = ''77'',
                          Completed = False, Error = ''''\<rparr>],
           db_faults = [], locks = Map.empty, queue = [], rdb_faults = []\<rparr> 1 0 10) =
     Inr [\<lparr>ID = 5, UserID = 2, Link = ''http://a/b'', FileName = ''77'',
           Completed = False, Error = ''''\<rparr>]"
proof -
  have repository: "GetDownloadRequests r u page limit = GetDownloadRequests r u' page limit"
    for u u' page limit
    by (simp add: GetDownloadRequests_def)
  have handler: "handler_GetDownloadRequests r userID pageParam limitParam =
      handler_GetDownloadRequests r userID' pageParam limitParam"
    unfolding handler_GetDownloadRequests_def
    by (simp only: repository [of userID _ _ userID'])
  have other: "fst (GetDownloadRequests
          \<lparr>downloads = [\<lparr>ID = 5, UserID = 2, Link = ''http://a/b'', FileName = ''77'',
                          Completed = False, Error = ''''\<rparr>],
           db_faults = [], locks = Map.empty, queue = [], rdb_faults = []\<rparr> 1 0 10) =
     Inr [\<lparr>ID = 5, UserID = 2, Link = ''http://a/b'', FileName = ''77'',
           Completed = False, Error = ''''\<rparr>]"
    by (simp add: GetDownloadRequests_def db_call_def wrap64_def)
  from repository [of userID page limit userID'] handler other show ?thesis
    by (intro conjI)
qed

text \<open>
  Every string that is not a decimal integer is rejected by \<open>ParseInt\<close>, and so is every
  decimal integer outside \<open>int64\<close>; the value left is 0 after a syntax error and the
  bound of \<open>int64\<close> on the side of the sign after a range error.
\<close>

lemma parse_digits_non_digit:
  "\<not> list_all is_digit cs \<Longrightarrow> snd (parse_digits n cs) \<noteq> None"
  by (induction cs arbitrary: n) auto

lemma parse_digits_value:
  "parse_digits n cs = (v, Some e) \<Longrightarrow>
   (e = ErrSyntax \<longrightarrow> v = 0) \<and> (e = ErrRange \<longrightarrow> v = maxUint64)"
  by (induction cs arbitrary: n) (auto split: if_splits)

lemma ParseInt_rejects_non_decimal:
  "\<not> decimal_syntax s \<Longrightarrow> snd (ParseInt s) \<noteq> None"
proof (cases "s = []")
  case True
  then show ?thesis by (simp add: ParseInt_def)
next
  case False
  assume nd: "\<not> decimal_syntax s"
  define u where "u = (if hd s = CHR ''+'' \<or> hd s = CHR ''-'' then tl s else s)"
  from nd False have bad: "u = [] \<or> \<not> list_all is_digit u"
    by (simp add: decimal_syntax_def u_def Let_def)
  have "snd (ParseUint u) \<noteq> None"
  proof (cases "u = []")
    case True
    then show ?thesis by (simp add: ParseUint_def)
  next
    case False
    with bad have "\<not> list_all is_digit u" by simp
    then show ?thesis using False by (simp add: ParseUint_def parse_digits_non_digit)
  qed
  then obtain un e where pu: "ParseUint u = (un, Some e)"
    by (cases "ParseUint u") auto
  show ?thesis
  proof (cases e)
    case ErrSyntax
    with pu False show ?thesis
      by (simp add: ParseInt_def Let_def u_def[symmetric])
  next
    case ErrRange
    with pu have "un = maxUint64"
      by (auto simp: ParseUint_def dest: parse_digits_value split: if_splits)
    with pu ErrRange False show ?thesis
      by (simp add: ParseInt_def Let_def u_def[symmetric] maxUint64_def)
  qed
qed

lemma ParseInt_value:
  assumes "ParseInt s = (v, Some e)"
  shows "v = (case e of ErrSyntax \<Rightarrow> 0
                | ErrRange \<Rightarrow> if hd s = CHR ''-'' then MinInt64 else MaxInt64)"
  using assms
  by (auto simp: ParseInt_def Let_def split: if_splits prod.splits NumError.splits)

text \<open>
  C9, as the code has it.  When \<open>ParseInt\<close> rejects the entry popped from the queue,
  which it does for every entry that is not a decimal integer and for every decimal
  integer outside \<open>int64\<close>, \<open>PopDownloadRequest\<close> returns a nil error with the value
  that \<open>ParseInt\<close> leaves: job id 0 after a syntax error, and after a range error the
  largest \<open>int64\<close>, or the smallest for an entry with a minus sign.
\<close>

theorem PopDownloadRequest_discards_parse_error:
  assumes reached: "fst (rdb_call r) = None"
    and pending: "queue r \<noteq> []"
    and rejected: "snd (ParseInt (last (queue r))) = Some e"
  shows "fst (PopDownloadRequest r) =
           (case e of ErrSyntax \<Rightarrow> 0
              | ErrRange \<Rightarrow> if hd (last (queue r)) = CHR ''-'' then MinInt64 else MaxInt64,
            None)"
proof -
  obtain r1 where call: "rdb_call r = (None, r1)"
    using reached by (cases "rdb_call r") simp
  have q: "queue r1 = queue r"
    using rdb_call_frame [of r] by (simp add: call)
  obtain v where p: "ParseInt (last (queue r)) = (v, Some e)"
    using rejected by (cases "ParseInt (last (queue r))") simp
  have "fst (PopDownloadRequest r) = (v, None)"
    using pending by (simp add: PopDownloadRequest_def call q p)
  with ParseInt_value [OF p] show ?thesis by simp
qed

theorem PopDownloadRequest_discards_parse_error_witness:
  "fst (PopDownloadRequest
          \<lparr>downloads = [], db_faults = [], locks = Map.empty, queue = [''12'', ''x7''],
           rdb_faults = []\<rparr>) = (0, None) \<and>
   fst (PopDownloadRequest
          \<lparr>downloads = [], db_faults = [], locks = Map.empty,
           queue = [''-9223372036854775809''], rdb_faults = []\<rparr>) = (MinInt64, None)"
proof -
  let ?r = "\<lparr>downloads = [], db_faults = [], locks = Map.empty, queue = [''12'', ''x7''],
           rdb_faults = []\<rparr>"
  let ?r' = "\<lparr>downloads = [], db_faults = [], locks = Map.empty,
           queue = [''-9223372036854775809''], rdb_faults = []\<rparr>"
  have a: "fst (rdb_call ?r) = None" and a': "fst (rdb_call ?r') = None"
    by (simp_all add: rdb_call_def)
  have b: "queue ?r \<noteq> []" and b': "queue ?r' \<noteq> []" by simp_all
  have c: "snd (ParseInt (last (queue ?r))) = Some ErrSyntax"
    by (simp add: ParseInt_def ParseUint_def is_digit_def)
  have c': "snd (ParseInt (last (queue ?r'))) = Some ErrRange"
    by (simp add: ParseInt_def ParseUint_def is_digit_def digit_val_def maxUint64_def)
  from PopDownloadRequest_discards_parse_error [OF a b c]
       PopDownloadRequest_discards_parse_error [OF a' b' c']
  show ?thesis by simp
qed

text \<open>
  The claim as the specification states it fails: the entries \<open>9223372036854775808\<close>
  and \<open>99999999999999999999x\<close> are rejected by \<open>ParseInt\<close>, the second being no decimal
  integer at all, and the job id returned with the nil error is the largest \<open>int64\<close>,
  not 0.
\<close>

theorem PopDownloadRequest_nonzero_counterexample:
  "snd (ParseInt ''9223372036854775808'') = Some ErrRange \<and>
   fst (PopDownloadRequest
          \<lparr>downloads = [], db_faults = [], locks = Map.empty,
           queue = [''9223372036854775808''], rdb_faults = []\<rparr>) = (9223372036854775807, None) \<and>
   \<not> decimal_syntax ''99999999999999999999x'' \<and>
   snd (ParseInt ''99999999999999999999x'') = Some ErrRange \<and>
   fst (PopDownloadRequest
          \<lparr>downloads = [], db_faults = [], locks = Map.empty,
           queue = [''99999999999999999999x''], rdb_faults = []\<rparr>) = (9223372036854775807, None)"
  by (simp add: PopDownloadRequest_def rdb_call_def ParseInt_def ParseUint_def is_digit_def
      digit_val_def maxUint64_def MaxInt64_def decimal_syntax_def)

text \<open>
  C10.  \<open>CompleteDownloadRequest\<close> writes nothing but the \<open>Completed\<close> flag of the rows
  with the given id: every row keeps its id, owner, link, file name and error text, a row
  is completed afterwards exactly if it was before or it is addressed by a call that
  reached the store, and the leases and the queue are as before.  So a job that failed
  once and then succeeds is completed with its old error text still in place.
\<close>

theorem CompleteDownloadRequest_only_sets_completed:
  assumes "CompleteDownloadRequest r downloadID = (err, r')"
  shows "map ID (downloads r') = map ID (downloads r) \<and>
         map UserID (downloads r') = map UserID (downloads r) \<and>
         map Link (downloads r') = map Link (downloads r) \<and>
         map FileName (downloads r') = map FileName (downloads r) \<and>
         map Error (downloads r') = map Error (downloads r) \<and>
         map Completed (downloads r') =
           map (\<lambda>req. Completed req \<or> (err = None \<and> ID req = downloadID)) (downloads r) \<and>
         locks r' = locks r \<and> queue r' = queue r"
proof -
  obtain f r1 where call: "db_call r = (f, r1)"
    by (cases "db_call r")
  have frame: "downloads r1 = downloads r" "locks r1 = locks r" "queue r1 = queue r"
    using db_call_frame [of r] by (simp_all add: call)
  show ?thesis
  proof (cases f)
    case None
    with assms call have "err = None"
      and "r' = r1\<lparr>downloads :=
             map (\<lambda>req. if ID req = downloadID then req\<lparr>Completed := True\<rparr> else req)
               (downloads r1)\<rparr>"
      by (simp_all add: CompleteDownloadRequest_def)
    then show ?thesis by (simp add: frame comp_def if_distrib cong: if_cong)
  next
    case (Some e)
    with assms call have "err \<noteq> None" and "r' = r1"
      by (auto simp: CompleteDownloadRequest_def)
    then show ?thesis by (auto simp: frame)
  qed
qed

theorem CompleteDownloadRequest_only_sets_completed_witness:
  "CompleteDownloadRequest
     \<lparr>downloads = [\<lparr>ID = 5, UserID = 2, Link = ''http://a/b'', FileName = ''77'',
                     Completed = False, Error = ''unexpected EOF''\<rparr>],
      db_faults = [], locks = Map.empty, queue = [], rdb_faults = []\<rparr> 5 =
     (None,
      \<lparr>downloads = [\<lparr>ID = 5, UserID = 2, Link = ''http://a/b'', FileName = ''77'',
                      Completed = True, Error = ''unexpected EOF''\<rparr>],
       db_faults = [], locks = Map.empty, queue = [], rdb_faults = []\<rparr>) \<and>
   map Error [\<lparr>ID = 5, UserID = 2, Link = ''http://a/b'', FileName = ''77'',
                Completed = True, Error = ''unexpected EOF''\<rparr>] = [''unexpected EOF'']"
proof -
  let ?r = "\<lparr>downloads = [\<lparr>ID = 5, UserID = 2, Link = ''http://a/b'', FileName = ''77'',
                     Completed = False, Error = ''unexpected EOF''\<rparr>],
      db_faults = [], locks = Map.empty, queue = [], rdb_faults = []\<rparr>"
  let ?r' = "\<lparr>downloads = [\<lparr>ID = 5, UserID = 2, Link = ''http://a/b'', FileName = ''77'',
                      Completed = True, Error = ''unexpected EOF''\<rparr>],
       db_faults = [], locks = Map.empty, queue = [], rdb_faults = []\<rparr>"
  have run: "CompleteDownloadRequest ?r 5 = (None, ?r')"
    by (simp add: CompleteDownloadRequest_def db_call_def)
  from CompleteDownloadRequest_only_sets_completed [OF run] run show ?thesis by simp
qed

section \<open>Properties of one attempt\<close>

lemmas repository_defs =
  GetDownloadRequest_def AcquireLock_def ReleaseLock_def ExtendLock_def MarkError_def
  CompleteDownloadRequest_def PopDownloadRequest_def db_call_def rdb_call_def alive_def

lemmas consumer_defs =
  processDownloadRequest_def fetch_def stream_def iteration_def on_eof_def on_cancel_def
  ctx_done_def mark_error_def openFile_def file_Write_def file_Sync_def file_append_def
  fs_call_def new_request_def

lemma Sprint_1: "Sprint 1 = ''1''"
  by (simp add: Sprint_def digits.simps digit_char_def)

lemma Sprint_404: "Sprint 404 = ''404''"
  by (simp add: Sprint_def digits.simps digit_char_def)

lemma GetDownloadRequest_frame:
  assumes "GetDownloadRequest r downloadID = (res, r1)"
  shows "downloads r1 = downloads r \<and> locks r1 = locks r \<and> queue r1 = queue r \<and>
         rdb_faults r1 = rdb_faults r"
proof -
  obtain f r0 where call: "db_call r = (f, r0)"
    by (cases "db_call r")
  have "r1 = r0"
    using assms by (auto simp: GetDownloadRequest_def call split: option.splits list.splits)
  with db_call_frame [of r] call show ?thesis by simp
qed

lemma AcquireLock_lost_frame:
  assumes "AcquireLock r t downloadID expiration = (res, r2)" and "res \<noteq> Inr True"
  shows "downloads r2 = downloads r \<and> locks r2 = locks r \<and> queue r2 = queue r"
proof -
  obtain f r0 where call: "rdb_call r = (f, r0)"
    by (cases "rdb_call r")
  have "r2 = r0"
    using assms by (auto simp: AcquireLock_def call split: option.splits if_splits)
  with rdb_call_frame [of r] call show ?thesis by simp
qed

text \<open>
  C7.  In an attempt that has loaded the record and whose \<open>AcquireLock\<close> does not
  return true, the function returns an error at once: the rows of the store are as
  before (neither \<open>Completed\<close> nor \<open>Error\<close> is written), no request is sent and no
  file is opened or written, and the lease of the holder is left in place.
\<close>

theorem contended_lease_leaves_record:
  assumes loaded: "GetDownloadRequest (repo w) downloadID = (Inr dr, r1)"
    and lost: "AcquireLock r1 (now e) downloadID LinkProcessingExpTime = (res, r2)"
    and contended: "res \<noteq> Inr True"
  shows "(\<exists>msg. fst (processDownloadRequest e w downloadID) = Returned (Some msg)) \<and>
         downloads (repo (snd (processDownloadRequest e w downloadID))) = downloads (repo w) \<and>
         http_log (snd (processDownloadRequest e w downloadID)) = http_log w \<and>
         files (snd (processDownloadRequest e w downloadID)) = files w \<and>
         fs_log (snd (processDownloadRequest e w downloadID)) = fs_log w \<and>
         locks (repo (snd (processDownloadRequest e w downloadID))) = locks (repo w)"
proof -
  have f1: "downloads r1 = downloads (repo w)" "locks r1 = locks (repo w)"
    using GetDownloadRequest_frame [OF loaded] by simp_all
  have f2: "downloads r2 = downloads r1" "locks r2 = locks r1"
    using AcquireLock_lost_frame [OF lost contended] by simp_all
  have "\<exists>msg. processDownloadRequest e w downloadID = (Returned (Some msg), w\<lparr>repo := r2\<rparr>)"
  proof (cases res)
    case (Inl err)
    then show ?thesis by (simp add: processDownloadRequest_def loaded lost)
  next
    case (Inr acquired)
    with contended have "\<not> acquired" by simp
    with Inr show ?thesis by (simp add: processDownloadRequest_def loaded lost)
  qed
  then obtain msg where
    run: "processDownloadRequest e w downloadID = (Returned (Some msg), w\<lparr>repo := r2\<rparr>)" ..
  show ?thesis by (simp add: run f1 f2)
qed

theorem contended_lease_leaves_record_witness:
  "processDownloadRequest
     \<lparr>now = 50, net = (\<lambda>req. DoOK \<lparr>StatusCode = 200, Body = []\<rparr>), url_error = (\<lambda>u. None),
      cancel_at = None, ctx_err = ''context canceled'', ticks = []\<rparr>
     \<lparr>repo = \<lparr>downloads = [\<lparr>ID = 1, UserID = 2, Link = ''http://a/b'', FileName = ''77'',
                               Completed = False, Error = ''''\<rparr>],
              db_faults = [], locks = [''1'' \<mapsto> (''locked'', Some 100)], queue = [],
              rdb_faults = []\<rparr>,
      files = Map.empty, fs_faults = [], fs_log = [], http_log = [], goroutines = 0\<rparr> 1 =
   (Returned (Some ''Download request 1 is already being processed:''),
    \<lparr>repo = \<lparr>downloads = [\<lparr>ID = 1, UserID = 2, Link = ''http://a/b'', FileName = ''77'',
                               Completed = False, Error = ''''\<rparr>],
              db_faults = [], locks = [''1'' \<mapsto> (''locked'', Some 100)], queue = [],
              rdb_faults = []\<rparr>,
      files = Map.empty, fs_faults = [], fs_log = [], http_log = [], goroutines = 0\<rparr>)"
proof -
  let ?e = "\<lparr>now = 50, net = (\<lambda>req. DoOK \<lparr>StatusCode = 200, Body = []\<rparr>),
      url_error = (\<lambda>u. None), cancel_at = None, ctx_err = ''context canceled'', ticks = []\<rparr>"
  let ?dr = "\<lparr>ID = 1, UserID = 2, Link = ''http://a/b'', FileName = ''77'',
                               Completed = False, Error = ''''\<rparr>"
  let ?r = "\<lparr>downloads = [?dr], db_faults = [],
             locks = [''1'' \<mapsto> (''locked'', Some (100::nat))], queue = [], rdb_faults = []\<rparr>"
  let ?w = "\<lparr>repo = ?r, files = Map.empty, fs_faults = [], fs_log = [], http_log = [],
             goroutines = 0\<rparr>"
  have get: "GetDownloadRequest ?r 1 = (Inr ?dr, ?r)"
    by (simp add: GetDownloadRequest_def db_call_def)
  have acq: "AcquireLock ?r 50 1 LinkProcessingExpTime = (Inr False, ?r)"
    by (simp add: AcquireLock_def rdb_call_def alive_def Sprint_1)
  have loaded: "GetDownloadRequest (repo ?w) 1 = (Inr ?dr, ?r)"
    by (simp add: get)
  have lost: "AcquireLock ?r (now ?e) 1 LinkProcessingExpTime = (Inr False, ?r)"
    by (simp add: acq)
  have contended: "(Inr False :: string + bool) \<noteq> Inr True" by simp
  note inst = contended_lease_leaves_record [OF loaded lost contended]
  have untouched: "downloads (repo (snd (processDownloadRequest ?e ?w 1))) = downloads (repo ?w)"
    using inst by (rule conjunct1 [OF conjunct2])
  have run: "processDownloadRequest ?e ?w 1 =
    (Returned (Some ''Download request 1 is already being processed:''), ?w)"
    by (simp add: processDownloadRequest_def get acq Sprint_1)
  from run untouched show ?thesis by simp
qed

text \<open>
  C5.  In an attempt that gets its response, with the store, the lease server and the
  file system answering, a status other than 200 and 206 ends the attempt with the
  status error: one request has been sent and none is sent again, no row changes its
  \<open>Completed\<close> flag, the \<open>Error\<close> of the job is the status message, no lease is left
  for the job, and no renewal goroutine has been started.
\<close>

theorem bad_status_is_terminal:
  fixes e :: env and w :: world and downloadID :: int and dr :: downloadRequest
    and resp :: response
  defines "msg \<equiv> ''Unexpected HTTP status code for link '' @ Link dr @ '': ''
                    @ Sprint (StatusCode resp)"
    and "req \<equiv> new_request (Link dr)
                    (length (case files w (FileName dr) of None \<Rightarrow> [] | Some c \<Rightarrow> c))"
    and "w' \<equiv> snd (processDownloadRequest e w downloadID)"
  assumes db_up: "db_faults (repo w) = []"
    and rdb_up: "rdb_faults (repo w) = []"
    and fs_up: "fs_faults w = []"
    and found: "filter (\<lambda>r. ID r = downloadID) (downloads (repo w)) = dr # rest"
    and free: "\<not> alive (now e) (locks (repo w) (Sprint downloadID))"
    and url_ok: "url_error e (Link dr) = None"
    and answered: "net e req = DoOK resp"
    and not_ok: "StatusCode resp \<noteq> 200"
    and not_partial: "StatusCode resp \<noteq> 206"
  shows "fst (processDownloadRequest e w downloadID) = Returned (Some msg) \<and>
         http_log w' = http_log w @ [req] \<and>
         map Completed (downloads (repo w')) = map Completed (downloads (repo w)) \<and>
         downloads (repo w') =
           map (\<lambda>r. if ID r = downloadID then r\<lparr>Error := msg\<rparr> else r) (downloads (repo w)) \<and>
         locks (repo w') (Sprint downloadID) = None \<and>
         goroutines w' = goroutines w"
proof -
  have get: "GetDownloadRequest (repo w) downloadID = (Inr dr, repo w)"
    by (simp add: GetDownloadRequest_def db_call_no_faults db_up found)
  let ?r2 = "(repo w)\<lparr>locks := (locks (repo w))(Sprint downloadID \<mapsto>
        (''locked'', if LinkProcessingExpTime = 0 then None
                     else Some (now e + LinkProcessingExpTime)))\<rparr>"
  have acq: "AcquireLock (repo w) (now e) downloadID LinkProcessingExpTime = (Inr True, ?r2)"
    using rdb_up free by (rule AcquireLock_free)
  let ?content = "case files w (FileName dr) of None \<Rightarrow> [] | Some c \<Rightarrow> c"
  let ?w1 = "w\<lparr>repo := ?r2, files := (files w)(FileName dr \<mapsto> ?content)\<rparr>"
  have opened: "openFile (w\<lparr>repo := ?r2\<rparr>) (FileName dr) = (Inr (length ?content), ?w1)"
    by (simp add: openFile_def fs_call_def fs_up Let_def)
  let ?w3 = "?w1\<lparr>http_log := http_log w @ [req]\<rparr>"
  have fetched: "fetch e (w\<lparr>repo := ?r2\<rparr>) downloadID dr =
      (Returned (Some msg), mark_error ?w3 downloadID msg)"
    using not_ok not_partial
    by (simp add: fetch_def opened url_ok Let_def req_def[symmetric] answered msg_def)
  have marked: "mark_error ?w3 downloadID msg =
      ?w3\<lparr>repo := ?r2\<lparr>downloads :=
         map (\<lambda>r. if ID r = downloadID then r\<lparr>Error := msg\<rparr> else r) (downloads (repo w))\<rparr>\<rparr>"
    by (simp add: mark_error_def MarkError_def db_call_def db_up)
  have run: "processDownloadRequest e w downloadID =
      (Returned (Some msg),
       ?w3\<lparr>repo := ?r2\<lparr>downloads :=
            map (\<lambda>r. if ID r = downloadID then r\<lparr>Error := msg\<rparr> else r) (downloads (repo w)),
          locks := (locks (repo w))(Sprint downloadID := None)\<rparr>\<rparr>)"
    by (simp add: processDownloadRequest_def get acq fetched marked ReleaseLock_def
        rdb_call_def rdb_up)
  show ?thesis
    by (simp add: w'_def run comp_def if_distrib cong: if_cong)
qed

theorem bad_status_is_terminal_witness:
  "processDownloadRequest
     \<lparr>now = 50, net = (\<lambda>req. DoOK \<lparr>StatusCode = 404, Body = []\<rparr>), url_error = (\<lambda>u. None),
      cancel_at = None, ctx_err = ''context canceled'', ticks = []\<rparr>
     \<lparr>repo = \<lparr>downloads = [\<lparr>ID = 1, UserID = 2, Link = ''http://a/b'', FileName = ''77'',
                               Completed = False, Error = ''''\<rparr>],
              db_faults = [], locks = Map.empty, queue = [], rdb_faults = []\<rparr>,
      files = Map.empty, fs_faults = [], fs_log = [], http_log = [], goroutines = 0\<rparr> 1 =
   (Returned (Some ''Unexpected HTTP status code for link http://a/b: 404''),
    \<lparr>repo = \<lparr>downloads = [\<lparr>ID = 1, UserID = 2, Link = ''http://a/b'', FileName = ''77'',
                 Completed = False,
                 Error = ''Unexpected HTTP status code for link http://a/b: 404''\<rparr>],
              db_faults = [], locks = Map.empty, queue = [], rdb_faults = []\<rparr>,
      files = [''77'' \<mapsto> ''''], fs_faults = [], fs_log = [],
      http_log = [new_request ''http://a/b'' 0], goroutines = 0\<rparr>)"
proof -
  let ?e = "\<lparr>now = 50, net = (\<lambda>req. DoOK \<lparr>StatusCode = 404, Body = []\<rparr>),
      url_error = (\<lambda>u. None), cancel_at = None, ctx_err = ''context canceled'', ticks = []\<rparr>"
  let ?dr = "\<lparr>ID = 1, UserID = 2, Link = ''http://a/b'', FileName = ''77'',
                               Completed = False, Error = ''''\<rparr>"
  let ?w = "\<lparr>repo = \<lparr>downloads = [?dr], db_faults = [], locks = Map.empty, queue = [],
                      rdb_faults = []\<rparr>,
             files = Map.empty, fs_faults = [], fs_log = [], http_log = [], goroutines = 0\<rparr>"
  have h1: "db_faults (repo ?w) = []" and h2: "rdb_faults (repo ?w) = []"
    and h3: "fs_faults ?w = []" by simp_all
  have h4: "filter (\<lambda>r. ID r = 1) (downloads (repo ?w)) = ?dr # []" by simp
  have h5: "\<not> alive (now ?e) (locks (repo ?w) (Sprint 1))" by (simp add: alive_def)
  have h6: "url_error ?e (Link ?dr) = None" by simp
  have h7: "net ?e (new_request (Link ?dr)
              (length (case files ?w (FileName ?dr) of None \<Rightarrow> [] | Some c \<Rightarrow> c))) =
            DoOK \<lparr>StatusCode = 404, Body = []\<rparr>" by simp
  have h8: "StatusCode \<lparr>StatusCode = 404, Body = []\<rparr> \<noteq> 200"
    and h9: "StatusCode \<lparr>StatusCode = 404, Body = []\<rparr> \<noteq> 206" by simp_all
  note inst = bad_status_is_terminal [OF h1 h2 h3 h4 h5 h6 h7 h8 h9]
  have res: "fst (processDownloadRequest ?e ?w 1) =
    Returned (Some ''Unexpected HTTP status code for link http://a/b: 404'')"
    using inst [THEN conjunct1] by (simp add: Sprint_404)
  have st: "snd (processDownloadRequest ?e ?w 1) =
    \<lparr>repo = \<lparr>downloads = [?dr\<lparr>Error := ''Unexpected HTTP status code for link http://a/b: 404''\<rparr>],
              db_faults = [], locks = Map.empty, queue = [], rdb_faults = []\<rparr>,
      files = [''77'' \<mapsto> ''''], fs_faults = [], fs_log = [],
      http_log = [new_request ''http://a/b'' 0], goroutines = 0\<rparr>"
    by (simp add: consumer_defs repository_defs Let_def Sprint_404 Sprint_1 LinkProcessingExpTime_def)
  show ?thesis
    using res st by (simp add: prod_eq_iff)
qed

section \<open>What a successful loop leaves in the file\<close>

lemma files_mark_error: "files (mark_error w downloadID msg) = files w"
  by (simp add: mark_error_def)

lemma file_Sync_files: "file_Sync w f = (err, w1) \<Longrightarrow> files w1 = files w"
  by (auto simp: file_Sync_def fs_call_def split: list.splits option.splits prod.splits)

lemma file_Write_files:
  "file_Write w f d = (None, w1) \<Longrightarrow>
   files w1 = (files w)(f \<mapsto> (case files w f of None \<Rightarrow> [] | Some c \<Rightarrow> c) @ d)"
  by (auto simp: file_Write_def file_append_def fs_call_def
      split: list.splits option.splits prod.splits)

lemma on_eof_files: "on_eof link downloadID f w = (res, w') \<Longrightarrow> files w' = files w"
  by (auto simp: on_eof_def files_mark_error dest: file_Sync_files
      split: option.splits prod.splits)

lemma iteration_files:
  assumes old: "files w f = Some old"
  shows "case iteration e link downloadID f k b rd w of
           Inl (res, w') \<Rightarrow> res = None \<longrightarrow> snd rd = Some EOF \<and> files w' = files w
         | Inr (b', w') \<Rightarrow> snd rd = None \<and> files w' = (files w)(f \<mapsto> old @ fst rd)"
proof (cases "ctx_done e k")
  case True
  then show ?thesis by (simp add: iteration_def on_cancel_def)
next
  case False
  show ?thesis
  proof (cases "snd rd")
    case (Some re)
    show ?thesis
    proof (cases re)
      case EOF
      obtain res w' where eof: "on_eof link downloadID f w = (res, w')"
        by (cases "on_eof link downloadID f w")
      with on_eof_files [OF eof] False Some EOF show ?thesis
        by (simp add: iteration_def)
    next
      case (ReadFailed m)
      with False Some show ?thesis by (simp add: iteration_def)
    qed
  next
    case None
    obtain werr w1 where wr: "file_Write w f (fst rd) = (werr, w1)"
      by (cases "file_Write w f (fst rd)")
    show ?thesis
    proof (cases werr)
      case (Some m)
      with False None wr show ?thesis by (simp add: iteration_def)
    next
      case wok: None
      with wr have "file_Write w f (fst rd) = (None, w1)" by simp
      from file_Write_files [OF this] old
      have f1: "files w1 = (files w)(f \<mapsto> old @ fst rd)" by simp
      obtain serr w2 where sy: "file_Sync w1 f = (serr, w2)"
        by (cases "file_Sync w1 f")
      from file_Sync_files [OF sy] f1
      have f2: "files w2 = (files w)(f \<mapsto> old @ fst rd)" by simp
      show ?thesis
        using False None wr wok sy f1 f2
        by (cases serr) (simp_all add: iteration_def)
    qed
  qed
qed

text \<open>
  A loop that returns without error has appended to the file the bytes of the reads that
  came with a nil error, up to the first read that came with an error: the bytes of
  the read that brought \<open>io.EOF\<close> are not among them.
\<close>

lemma stream_loop_appends:
  assumes "files w f = Some old"
    and "stream_loop e link downloadID f k b body w = (None, w')"
  shows "files w' f = Some (old @ concat (map fst (takeWhile (\<lambda>rd. snd rd = None) body)))"
  using assms
proof (induction body arbitrary: k b w old)
  case Nil
  then show ?case
    by (auto simp: on_cancel_def dest: on_eof_files split: if_splits)
next
  case (Cons rd body)
  note step = iteration_files [OF Cons.prems(1), where e = e and link = link and
      downloadID = downloadID and k = k and b = b and rd = rd]
  show ?case
  proof (cases "iteration e link downloadID f k b rd w")
    case (Inl ret)
    with Cons.prems(2) have "ret = (None, w')" by simp
    with step Inl Cons.prems(1) show ?thesis by simp
  next
    case (Inr nxt)
    obtain b' w1 where nxt: "nxt = (b', w1)" by (cases nxt)
    from step Inr nxt have rd: "snd rd = None"
      and f1: "files w1 f = Some (old @ fst rd)" by simp_all
    from Cons.prems(2) Inr nxt
    have rest: "stream_loop e link downloadID f (Suc k) b' body w1 = (None, w')" by simp
    from Cons.IH [OF f1 rest] rd show ?thesis by simp
  qed
qed

section \<open>Where an attempt panics\<close>

text \<open>
  An attempt panics only after a failed \<open>client.Do\<close> that left no response: a record that
  is not found, a file that cannot be opened, a status error and the errors of the
  streaming loop all make the function return.
\<close>

lemma fetch_panics_only_on_transport_error:
  assumes "fst (fetch e w downloadID dr) = Panicked m"
  shows "\<exists>req err. net e req = DoFailed err None"
proof (rule ccontr)
  assume no: "\<not> (\<exists>req err. net e req = DoFailed err None)"
  have resp: "\<exists>resp. net e req = DoOK resp \<or> (\<exists>err. net e req = DoFailed err (Some resp))"
    for req
  proof (cases "net e req")
    case (DoFailed err r)
    with no show ?thesis by (cases r) auto
  next
    case (DoOK r)
    then show ?thesis by simp
  qed
  obtain o1 w1 where op: "openFile w (FileName dr) = (o1, w1)"
    by (cases "openFile w (FileName dr)")
  show False
  proof (cases o1)
    case (Inl err)
    with assms op show False by (simp add: fetch_def)
  next
    case (Inr offset)
    show False
    proof (cases "url_error e (Link dr)")
      case (Some err)
      with assms op Inr show False by (simp add: fetch_def)
    next
      case None
      from resp [of "new_request (Link dr) offset"] obtain r where
        "net e (new_request (Link dr) offset) = DoOK r \<or>
         (\<exists>err. net e (new_request (Link dr) offset) = DoFailed err (Some r))" ..
      with assms op Inr None show False
        by (auto simp: fetch_def Let_def split: prod.splits if_splits)
    qed
  qed
qed

lemma processDownloadRequest_panics_only_on_transport_error:
  assumes "fst (processDownloadRequest e w downloadID) = Panicked m"
  shows "\<exists>req err. net e req = DoFailed err None"
proof -
  obtain g r1 where get: "GetDownloadRequest (repo w) downloadID = (g, r1)"
    by (cases "GetDownloadRequest (repo w) downloadID")
  show ?thesis
  proof (cases g)
    case (Inl err)
    with assms get show ?thesis by (simp add: processDownloadRequest_def)
  next
    case (Inr dr)
    obtain a r2 where acq: "AcquireLock r1 (now e) downloadID LinkProcessingExpTime = (a, r2)"
      by (cases "AcquireLock r1 (now e) downloadID LinkProcessingExpTime")
    show ?thesis
    proof (cases a)
      case (Inl err)
      with assms get Inr acq show ?thesis by (simp add: processDownloadRequest_def)
    next
      case acquired: (Inr won)
      show ?thesis
      proof (cases won)
        case False
        with assms get Inr acq acquired show ?thesis
          by (simp add: processDownloadRequest_def)
      next
        case True
        with assms get Inr acq acquired
        have "fst (fetch e (w\<lparr>repo := r2\<rparr>) downloadID dr) = Panicked m"
          by (simp add: processDownloadRequest_def split: prod.splits)
        then show ?thesis by (rule fetch_panics_only_on_transport_error)
      qed
    qed
  qed
qed

lemma Sprint_2: "Sprint 2 = ''2''"
  by (simp add: Sprint_def digits.simps digit_char_def)

lemma Sprint_0: "Sprint 0 = ''0''"
  by (simp add: Sprint_def digits.simps digit_char_def)

text \<open>
  C1 at a transport error.  Two jobs are queued and the worker polls twice; the server
  of job 1 refuses the connection, so \<open>client.Do\<close> returns an error and a nil response.
  The attempt records the error and then panics; the worker ends there, and job 2, still
  in the queue, is not polled for.
\<close>

theorem transport_error_crashes_worker:
  "run [(False, \<lparr>now = 50, net = (\<lambda>req. DoFailed ''connection refused'' None),
                  url_error = (\<lambda>u. None), cancel_at = None, ctx_err = ''context canceled'',
                  ticks = []\<rparr>),
        (False, \<lparr>now = 60, net = (\<lambda>req. DoFailed ''connection refused'' None),
                  url_error = (\<lambda>u. None), cancel_at = None, ctx_err = ''context canceled'',
                  ticks = []\<rparr>)]
     \<lparr>repo = \<lparr>downloads = [\<lparr>ID = 1, UserID = 2, Link = ''http://a/b'', FileName = ''77'',
                               Completed = False, Error = ''''\<rparr>,
                             \<lparr>ID = 2, UserID = 2, Link = ''http://a/c'', FileName = ''78'',
                               Completed = False, Error = ''''\<rparr>],
              db_faults = [], locks = Map.empty, queue = [''2'', ''1''], rdb_faults = []\<rparr>,
      files = Map.empty, fs_faults = [], fs_log = [], http_log = [], goroutines = 0\<rparr> =
   (Crashed ''runtime error: invalid memory address or nil pointer dereference'',
    \<lparr>repo = \<lparr>downloads = [\<lparr>ID = 1, UserID = 2, Link = ''http://a/b'', FileName = ''77'',
                               Completed = False, Error = ''connection refused''\<rparr>,
                             \<lparr>ID = 2, UserID = 2, Link = ''http://a/c'', FileName = ''78'',
                               Completed = False, Error = ''''\<rparr>],
              db_faults = [], locks = Map.empty, queue = [''2''], rdb_faults = []\<rparr>,
      files = [''77'' \<mapsto> ''''], fs_faults = [], fs_log = [],
      http_log = [new_request ''http://a/b'' 0], goroutines = 0\<rparr>)"
  by (simp add: consumer_defs repository_defs Let_def Sprint_1 LinkProcessingExpTime_def
      ParseInt_def ParseUint_def is_digit_def digit_val_def maxUint64_def)

text \<open>
  C3 at a resumed download.  The file holds the first two bytes \<open>ab\<close> of the resource
  \<open>abcdef\<close>.  The attempt opens it, takes offset 2 and sends one request with
  \<open>Range: bytes=2-\<close>; the server answers 206 with the rest, which \<open>Read\<close> delivers as
  \<open>cd\<close> and then \<open>ef\<close> together with \<open>io.EOF\<close>.  The job is marked completed and the
  file holds \<open>abcd\<close>: the bytes that came with \<open>io.EOF\<close> are not written.
\<close>

theorem resumed_file_misses_final_read:
  "processDownloadRequest
     \<lparr>now = 50,
      net = (\<lambda>req. if req_range req = ''bytes=2-''
                    then DoOK \<lparr>StatusCode = 206, Body = [(''cd'', None), (''ef'', Some EOF)]\<rparr>
                    else DoOK \<lparr>StatusCode = 416, Body = []\<rparr>),
      url_error = (\<lambda>u. None), cancel_at = None, ctx_err = ''context canceled'', ticks = []\<rparr>
     \<lparr>repo = \<lparr>downloads = [\<lparr>ID = 1, UserID = 2, Link = ''http://a/b'', FileName = ''77'',
                               Completed = False, Error = ''''\<rparr>],
              db_faults = [], locks = Map.empty, queue = [], rdb_faults = []\<rparr>,
      files = [''77'' \<mapsto> ''ab''], fs_faults = [], fs_log = [], http_log = [],
      goroutines = 0\<rparr> 1 =
   (Returned None,
    \<lparr>repo = \<lparr>downloads = [\<lparr>ID = 1, UserID = 2, Link = ''http://a/b'', FileName = ''77'',
                               Completed = True, Error = ''''\<rparr>],
              db_faults = [], locks = Map.empty, queue = [], rdb_faults = []\<rparr>,
      files = [''77'' \<mapsto> ''abcd''], fs_faults = [],
      fs_log = [Written ''77'' 2, Synced ''77''],
      http_log = [\<lparr>req_method = ''GET'', req_url = ''http://a/b'', req_range = ''bytes=2-'',
                   req_user_agent = ''Mozilla/5.0 (Windows NT 10.0; Win64; x64) AppleWebKit/537.36 (KHTML, like Gecko) Chrome/91.0.4472.124 Safari/537.36''\<rparr>],
      goroutines = 1\<rparr>)"
  by (simp add: consumer_defs repository_defs Let_def Sprint_1 Sprint_2 LinkProcessingExpTime_def
      FlushThresholdBytes_def DownloadBuffSizeBytes_def)

text \<open>
  The renewal goroutine returns only when the context is cancelled: ticks, however many,
  and the end of the ticks leave it waiting in its \<open>select\<close>.
\<close>

lemma renewal_returns_iff_cancelled: "fst (renewal downloadID ss r) = (Done \<in> set ss)"
proof (induction ss arbitrary: r)
  case Nil
  then show ?case by simp
next
  case (Cons s ss)
  then show ?case by (cases s) simp_all
qed

text \<open>
  C6 at an attempt under a context that is never cancelled.  The ticker period is half
  the lease time, and the attempt succeeds (status 200, end of the body at the first
  read); after it has returned and \<open>ticker.Stop()\<close> has run, the renewal goroutine it
  started has not returned, and no number of ticks makes it return.
\<close>

theorem renewal_goroutine_outlives_attempt:
  "2 * ticker_period = LinkProcessingExpTime \<and>
   fst (renewal 1 [Tick 30000000050, Tick 60000000050] r) = False \<and>
   processDownloadRequest
     \<lparr>now = 50, net = (\<lambda>req. DoOK \<lparr>StatusCode = 200, Body = []\<rparr>), url_error = (\<lambda>u. None),
      cancel_at = None, ctx_err = ''context canceled'', ticks = []\<rparr>
     \<lparr>repo = \<lparr>downloads = [\<lparr>ID = 1, UserID = 2, Link = ''http://a/b'', FileName = ''77'',
                               Completed = False, Error = ''''\<rparr>],
              db_faults = [], locks = Map.empty, queue = [], rdb_faults = []\<rparr>,
      files = Map.empty, fs_faults = [], fs_log = [], http_log = [], goroutines = 0\<rparr> 1 =
   (Returned None,
    \<lparr>repo = \<lparr>downloads = [\<lparr>ID = 1, UserID = 2, Link = ''http://a/b'', FileName = ''77'',
                               Completed = True, Error = ''''\<rparr>],
              db_faults = [], locks = Map.empty, queue = [], rdb_faults = []\<rparr>,
      files = [''77'' \<mapsto> ''''], fs_faults = [], fs_log = [Synced ''77''],
      http_log = [new_request ''http://a/b'' 0], goroutines = 1\<rparr>)"
proof -
  have period: "2 * ticker_period = LinkProcessingExpTime"
    by (simp add: ticker_period_def LinkProcessingExpTime_def)
  have waiting: "fst (renewal 1 [Tick 30000000050, Tick 60000000050] r) = False"
    by (simp add: renewal_returns_iff_cancelled)
  have run: "processDownloadRequest
     \<lparr>now = 50, net = (\<lambda>req. DoOK \<lparr>StatusCode = 200, Body = []\<rparr>), url_error = (\<lambda>u. None),
      cancel_at = None, ctx_err = ''context canceled'', ticks = []\<rparr>
     \<lparr>repo = \<lparr>downloads = [\<lparr>ID = 1, UserID = 2, Link = ''http://a/b'', FileName = ''77'',
                               Completed = False, Error = ''''\<rparr>],
              db_faults = [], locks = Map.empty, queue = [], rdb_faults = []\<rparr>,
      files = Map.empty, fs_faults = [], fs_log = [], http_log = [], goroutines = 0\<rparr> 1 =
   (Returned None,
    \<lparr>repo = \<lparr>downloads = [\<lparr>ID = 1, UserID = 2, Link = ''http://a/b'', FileName = ''77'',
                               Completed = True, Error = ''''\<rparr>],
              db_faults = [], locks = Map.empty, queue = [], rdb_faults = []\<rparr>,
      files = [''77'' \<mapsto> ''''], fs_faults = [], fs_log = [Synced ''77''],
      http_log = [new_request ''http://a/b'' 0], goroutines = 1\<rparr>)"
    by (simp add: consumer_defs repository_defs Let_def Sprint_1 LinkProcessingExpTime_def)
  from period waiting run show ?thesis by (intro conjI)
qed

section \<open>The flushes of the streaming loop\<close>

lemma unflushed_Nil: "unflushed b [] = b"
  by (simp add: unflushed_def)

lemma unflushed_Written: "unflushed b (Written f n # evs) = unflushed (b + n) evs"
  by (simp add: unflushed_def)

lemma unflushed_Synced: "unflushed b (Synced f # evs) = unflushed 0 evs"
  by (simp add: unflushed_def)

lemma unflushed_append: "unflushed b (xs @ ys) = unflushed (unflushed b xs) ys"
  by (simp add: unflushed_def)

lemma all_le_Suc: "(\<forall>i \<le> Suc n. P i) \<longleftrightarrow> P 0 \<and> (\<forall>i \<le> n. P (Suc i))"
proof
  assume "\<forall>i \<le> Suc n. P i"
  then show "P 0 \<and> (\<forall>i \<le> n. P (Suc i))" by simp
next
  assume a: "P 0 \<and> (\<forall>i \<le> n. P (Suc i))"
  show "\<forall>i \<le> Suc n. P i"
  proof (intro allI impI)
    fix i assume "i \<le> Suc n"
    with a show "P i" by (cases i) simp_all
  qed
qed

lemma all_less_Suc: "(\<forall>i < Suc n. P i) \<longleftrightarrow> P 0 \<and> (\<forall>i < n. P (Suc i))"
proof
  assume "\<forall>i < Suc n. P i"
  then show "P 0 \<and> (\<forall>i < n. P (Suc i))" by simp
next
  assume a: "P 0 \<and> (\<forall>i < n. P (Suc i))"
  show "\<forall>i < Suc n. P i"
  proof (intro allI impI)
    fix i assume "i < Suc n"
    with a show "P i" by (cases i) simp_all
  qed
qed

lemma flush_discipline_Nil:
  "flush_discipline f b [] = (b < FlushThresholdBytes + DownloadBuffSizeBytes)"
  by (simp add: flush_discipline_def unflushed_Nil)

lemma flush_discipline_Cons:
  "flush_discipline f b (ev # evs) =
     (b < FlushThresholdBytes + DownloadBuffSizeBytes \<and>
      (FlushThresholdBytes \<le> b \<longrightarrow> ev = Synced f) \<and>
      flush_discipline f (unflushed b [ev]) evs)"
proof (cases ev)
  case (Written g n)
  show ?thesis
    unfolding flush_discipline_def Written
    by (simp only: length_Cons all_le_Suc all_less_Suc take_0 take_Suc_Cons
        nth_Cons_0 nth_Cons_Suc unflushed_Nil unflushed_Written) blast
next
  case (Synced g)
  show ?thesis
    unfolding flush_discipline_def Synced
    by (simp only: length_Cons all_le_Suc all_less_Suc take_0 take_Suc_Cons
        nth_Cons_0 nth_Cons_Suc unflushed_Nil unflushed_Synced) blast
qed

lemma flush_discipline_append:
  "flush_discipline f b (xs @ ys) =
     (flush_discipline f b xs \<and> flush_discipline f (unflushed b xs) ys)"
proof (induction xs arbitrary: b)
  case Nil
  show ?case
    by (cases ys) (auto simp: flush_discipline_Nil flush_discipline_Cons unflushed_Nil)
next
  case (Cons ev xs)
  show ?case
    by (cases ev)
       (simp_all add: flush_discipline_Cons Cons.IH unflushed_Written unflushed_Synced
          unflushed_Nil)
qed

lemma fs_log_mark_error: "fs_log (mark_error w downloadID msg) = fs_log w"
  by (simp add: mark_error_def)

lemma file_Write_log:
  assumes "file_Write w f d = (err, w1)"
  shows "\<exists>n \<le> length d. fs_log w1 = fs_log w @ [Written f n] \<and> (err = None \<longrightarrow> n = length d)"
proof -
  obtain x w0 where call: "fs_call w = (x, w0)" by (cases "fs_call w")
  have log0: "fs_log w0 = fs_log w"
    using call by (auto simp: fs_call_def split: list.splits)
  show ?thesis
  proof (cases x)
    case None
    with assms call log0 show ?thesis
      by (auto simp: file_Write_def file_append_def)
  next
    case (Some p)
    obtain m k where p: "p = (m, k)" by (cases p)
    with Some assms call log0
    have "fs_log w1 = fs_log w @ [Written f (length (take k d))]" and "err \<noteq> None"
      by (auto simp: file_Write_def file_append_def)
    then show ?thesis
      by (intro exI [of _ "length (take k d)"]) auto
  qed
qed

lemma file_Sync_log:
  assumes "file_Sync w f = (err, w1)"
  shows "fs_log w1 = fs_log w @ (if err = None then [Synced f] else [])"
proof -
  obtain x w0 where call: "fs_call w = (x, w0)" by (cases "fs_call w")
  have log0: "fs_log w0 = fs_log w"
    using call by (auto simp: fs_call_def split: list.splits)
  from assms call log0 show ?thesis
    by (cases x) (auto simp: file_Sync_def)
qed

lemma on_eof_log:
  assumes "on_eof link downloadID f w = (res, w')"
  shows "\<exists>evs. fs_log w' = fs_log w @ evs \<and> (evs = [] \<or> evs = [Synced f]) \<and>
               (res = None \<longrightarrow> evs = [Synced f])"
proof -
  obtain err w1 where sync: "file_Sync w f = (err, w1)" by (cases "file_Sync w f")
  note log1 = file_Sync_log [OF sync]
  show ?thesis
  proof (cases err)
    case (Some m)
    with assms sync have "res \<noteq> None" and "fs_log w' = fs_log w1"
      by (auto simp: on_eof_def fs_log_mark_error)
    with log1 Some show ?thesis by simp
  next
    case None
    obtain cerr r2 where c: "CompleteDownloadRequest (repo w1) downloadID = (cerr, r2)"
      by (cases "CompleteDownloadRequest (repo w1) downloadID")
    from assms sync None c have "fs_log w' = fs_log w1"
      by (cases cerr) (auto simp: on_eof_def fs_log_mark_error)
    with log1 None show ?thesis by simp
  qed
qed

text \<open>
  The value of \<open>bytesRead\<close> that an iteration hands to the next one is below the
  threshold, whatever it was given.
\<close>

lemma iteration_bytesRead_below_threshold:
  "iteration e link downloadID f k b rd w = Inr (b', w') \<Longrightarrow> b' < FlushThresholdBytes"
  by (auto simp: iteration_def FlushThresholdBytes_def DownloadBuffSizeBytes_def
      split: if_splits option.splits read_error.splits prod.splits)

lemma iteration_log:
  assumes below: "b < FlushThresholdBytes"
    and chunk: "length (fst rd) \<le> DownloadBuffSizeBytes"
  shows "case iteration e link downloadID f k b rd w of
           Inl (res, w') \<Rightarrow>
             (\<exists>evs. fs_log w' = fs_log w @ evs \<and> flush_discipline f b evs \<and>
                    (res = None \<longrightarrow> evs \<noteq> [] \<and> last evs = Synced f))
         | Inr (b', w') \<Rightarrow>
             (\<exists>evs. fs_log w' = fs_log w @ evs \<and> flush_discipline f b evs \<and>
                    b' = unflushed b evs \<and> b' < FlushThresholdBytes)"
proof -
  have room: "b < FlushThresholdBytes + DownloadBuffSizeBytes"
    using below by simp
  have none: "flush_discipline f b []"
    using room by (simp add: flush_discipline_Nil)
  have sync: "flush_discipline f b [Synced f]"
    using room by (simp add: flush_discipline_Cons flush_discipline_Nil unflushed_Synced
        unflushed_Nil DownloadBuffSizeBytes_def)
  have wrote: "flush_discipline f b [Written f n]" if "n \<le> length (fst rd)" for n
    using below chunk that
    by (simp add: flush_discipline_Cons flush_discipline_Nil unflushed_Written unflushed_Nil)
  have wrote_sync: "flush_discipline f b [Written f n, Synced f]" if "n \<le> length (fst rd)" for n
    using below chunk that
    by (simp add: flush_discipline_Cons flush_discipline_Nil unflushed_Written unflushed_Synced
        unflushed_Nil)
  show ?thesis
  proof (cases "ctx_done e k")
    case True
    then show ?thesis
      using none by (simp add: iteration_def on_cancel_def fs_log_mark_error)
  next
    case False
    show ?thesis
    proof (cases "snd rd")
      case (Some re)
      show ?thesis
      proof (cases re)
        case EOF
        obtain res w' where eof: "on_eof link downloadID f w = (res, w')"
          by (cases "on_eof link downloadID f w")
        from on_eof_log [OF eof] obtain evs where
          "fs_log w' = fs_log w @ evs" "evs = [] \<or> evs = [Synced f]"
          "res = None \<longrightarrow> evs = [Synced f]" by blast
        then have "fs_log w' = fs_log w @ evs \<and> flush_discipline f b evs \<and>
                    (res = None \<longrightarrow> evs \<noteq> [] \<and> last evs = Synced f)"
          using none sync by auto
        then show ?thesis
          using False Some EOF eof by (auto simp: iteration_def)
      next
        case (ReadFailed m)
        then show ?thesis
          using False Some none by (simp add: iteration_def fs_log_mark_error)
      qed
    next
      case None
      obtain werr w1 where wr: "file_Write w f (fst rd) = (werr, w1)"
        by (cases "file_Write w f (fst rd)")
      from file_Write_log [OF wr] obtain n where
        n: "n \<le> length (fst rd)" "fs_log w1 = fs_log w @ [Written f n]"
        "werr = None \<longrightarrow> n = length (fst rd)" by blast
      show ?thesis
      proof (cases werr)
        case (Some m)
        then show ?thesis
          using False None wr n wrote [OF n(1)]
          by (auto simp: iteration_def fs_log_mark_error)
      next
        case wok: None
        with n have len: "n = length (fst rd)" by simp
        show ?thesis
        proof (cases "FlushThresholdBytes \<le> b + length (fst rd)")
          case reached: True
          obtain serr w2 where sy: "file_Sync w1 f = (serr, w2)"
            by (cases "file_Sync w1 f")
          note log2 = file_Sync_log [OF sy]
          show ?thesis
          proof (cases serr)
            case (Some m)
            then show ?thesis
              using False None wr wok reached sy log2 n wrote [OF n(1)]
              by (auto simp: iteration_def fs_log_mark_error)
          next
            case synced: None
            have "unflushed b [Written f n, Synced f] = 0"
              by (simp add: unflushed_Written unflushed_Synced unflushed_Nil)
            moreover have "0 < FlushThresholdBytes"
              by (simp add: FlushThresholdBytes_def DownloadBuffSizeBytes_def)
            ultimately show ?thesis
              using False None wr wok reached sy synced log2 n wrote_sync [OF n(1)]
              by (auto simp: iteration_def)
          qed
        next
          case under: False
          have "unflushed b [Written f n] = b + length (fst rd)"
            by (simp add: unflushed_Written unflushed_Nil len)
          then show ?thesis
            using False None wr wok under n wrote [OF n(1)]
            by (auto simp: iteration_def)
        qed
      qed
    qed
  qed
qed

lemma stream_loop_log:
  assumes "b < FlushThresholdBytes"
    and "list_all (\<lambda>rd. length (fst rd) \<le> DownloadBuffSizeBytes) body"
    and "stream_loop e link downloadID f k b body w = (res, w')"
  shows "\<exists>evs. fs_log w' = fs_log w @ evs \<and> flush_discipline f b evs \<and>
               (res = None \<longrightarrow> evs \<noteq> [] \<and> last evs = Synced f)"
  using assms
proof (induction body arbitrary: k b w)
  case Nil
  have room: "b < FlushThresholdBytes + DownloadBuffSizeBytes"
    using Nil.prems(1) by simp
  show ?case
  proof (cases "ctx_done e k")
    case True
    with Nil.prems(3) have "res \<noteq> None" and "fs_log w' = fs_log w"
      by (auto simp: on_cancel_def fs_log_mark_error)
    then show ?thesis
      using room by (simp add: flush_discipline_Nil)
  next
    case False
    with Nil.prems(3) have eof: "on_eof link downloadID f w = (res, w')" by simp
    from on_eof_log [OF eof] obtain evs where
      "fs_log w' = fs_log w @ evs" "evs = [] \<or> evs = [Synced f]"
      "res = None \<longrightarrow> evs = [Synced f]" by blast
    moreover have "flush_discipline f b []" "flush_discipline f b [Synced f]"
      using room
      by (simp_all add: flush_discipline_Cons flush_discipline_Nil unflushed_Synced unflushed_Nil
          DownloadBuffSizeBytes_def)
    ultimately show ?thesis by auto
  qed
next
  case (Cons rd body)
  from Cons.prems(2) have chunk: "length (fst rd) \<le> DownloadBuffSizeBytes"
    and chunks: "list_all (\<lambda>rd. length (fst rd) \<le> DownloadBuffSizeBytes) body"
    by simp_all
  note step = iteration_log [OF Cons.prems(1) chunk, where e = e and link = link and
      downloadID = downloadID and f = f and k = k and w = w]
  show ?case
  proof (cases "iteration e link downloadID f k b rd w")
    case (Inl ret)
    with Cons.prems(3) have "ret = (res, w')" by simp
    with step Inl show ?thesis by simp
  next
    case (Inr nxt)
    obtain b' w1 where nxt: "nxt = (b', w1)" by (cases nxt)
    from step Inr nxt obtain evs1 where
      one: "fs_log w1 = fs_log w @ evs1" "flush_discipline f b evs1"
      "b' = unflushed b evs1" "b' < FlushThresholdBytes" by auto
    from Cons.prems(3) Inr nxt
    have rest: "stream_loop e link downloadID f (Suc k) b' body w1 = (res, w')" by simp
    from Cons.IH [OF one(4) chunks rest] obtain evs2 where
      two: "fs_log w' = fs_log w1 @ evs2" "flush_discipline f b' evs2"
      "res = None \<longrightarrow> evs2 \<noteq> [] \<and> last evs2 = Synced f" by blast
    have "fs_log w' = fs_log w @ (evs1 @ evs2)"
      using one(1) two(1) by simp
    moreover have "flush_discipline f b (evs1 @ evs2)"
      using one(2,3) two(2) by (simp add: flush_discipline_append)
    moreover have "res = None \<longrightarrow> evs1 @ evs2 \<noteq> [] \<and> last (evs1 @ evs2) = Synced f"
      using two(3) by simp
    ultimately show ?thesis by blast
  qed
qed

text \<open>
  C4, as the code has it.  Every \<open>Read\<close> fills at most the buffer of 128 KB.  Over the
  file operations of the streaming loop, counted from its start, the bytes written since
  the last sync are at every point fewer than the threshold of 1 MB plus one buffer;
  wherever they have reached the threshold the next file operation is the sync, so they
  are under the threshold before every write; and a loop that ends in success ends with
  one more sync, after which no written byte is unsynced.
\<close>

theorem flush_bound:
  assumes chunks: "list_all (\<lambda>rd. length (fst rd) \<le> DownloadBuffSizeBytes) body"
    and run: "stream_loop e link downloadID f 0 0 body w = (res, w')"
  shows "\<exists>evs. fs_log w' = fs_log w @ evs \<and>
           (\<forall>i \<le> length evs.
              unflushed 0 (take i evs) < FlushThresholdBytes + DownloadBuffSizeBytes) \<and>
           (\<forall>i < length evs.
              FlushThresholdBytes \<le> unflushed 0 (take i evs) \<longrightarrow> evs ! i = Synced f) \<and>
           (res = None \<longrightarrow> evs \<noteq> [] \<and> last evs = Synced f \<and> unflushed 0 evs = 0)"
proof -
  have start: "0 < FlushThresholdBytes"
    by (simp add: FlushThresholdBytes_def DownloadBuffSizeBytes_def)
  from stream_loop_log [OF start chunks run] obtain evs where
    evs: "fs_log w' = fs_log w @ evs" "flush_discipline f 0 evs"
    "res = None \<longrightarrow> evs \<noteq> [] \<and> last evs = Synced f" by blast
  have "unflushed 0 evs = 0" if "evs \<noteq> []" "last evs = Synced f"
  proof -
    from that have "evs = butlast evs @ [Synced f]"
      by (metis append_butlast_last_id)
    then have "unflushed 0 evs = unflushed (unflushed 0 (butlast evs)) [Synced f]"
      by (metis unflushed_append)
    then show ?thesis by (simp add: unflushed_Synced unflushed_Nil)
  qed
  with evs show ?thesis
    unfolding flush_discipline_def by blast
qed

text \<open>
  The claim as the specification states it fails.  Eight reads that fill the buffer are
  written one after the other; after the eighth write, and before the sync that it
  triggers, the bytes written since the last sync are the full threshold, not fewer.
\<close>

theorem unflushed_reaches_threshold_counterexample:
  "fs_log (snd (stream_loop
       \<lparr>now = 50, net = (\<lambda>req. DoOK \<lparr>StatusCode = 200, Body = []\<rparr>),
        url_error = (\<lambda>u. None), cancel_at = None, ctx_err = ''context canceled'',
        ticks = []\<rparr>
       ''http://a/b'' 1 ''77'' 0 0
      [(replicate 131072 (CHR ''a''), None),
       (replicate 131072 (CHR ''a''), None),
       (replicate 131072 (CHR ''a''), None),
       (replicate 131072 (CHR ''a''), None),
       (replicate 131072 (CHR ''a''), None),
       (replicate 131072 (CHR ''a''), None),
       (replicate 131072 (CHR ''a''), None),
       (replicate 131072 (CHR ''a''), None)]
       \<lparr>repo = \<lparr>downloads = [\<lparr>ID = 1, UserID = 2, Link = ''http://a/b'', FileName = ''77'',
                                 Completed = False, Error = ''''\<rparr>],
                db_faults = [], locks = Map.empty, queue = [], rdb_faults = []\<rparr>,
        files = [''77'' \<mapsto> ''''], fs_faults = [], fs_log = [], http_log = [],
        goroutines = 0\<rparr>)) =
     [Written ''77'' 131072, Written ''77'' 131072, Written ''77'' 131072, Written ''77'' 131072, Written ''77'' 131072, Written ''77'' 131072, Written ''77'' 131072, Written ''77'' 131072,
      Synced ''77'', Synced ''77''] \<and>
   unflushed 0 (take 8
     [Written ''77'' 131072, Written ''77'' 131072, Written ''77'' 131072, Written ''77'' 131072, Written ''77'' 131072, Written ''77'' 131072, Written ''77'' 131072, Written ''77'' 131072,
      Synced ''77'', Synced ''77'']) = FlushThresholdBytes"
  by (simp add: consumer_defs repository_defs unflushed_def FlushThresholdBytes_def
      DownloadBuffSizeBytes_def)

theorem flush_bound_witness:
  "stream_loop
       \<lparr>now = 50, net = (\<lambda>req. DoOK \<lparr>StatusCode = 200, Body = []\<rparr>),
        url_error = (\<lambda>u. None), cancel_at = None, ctx_err = ''context canceled'',
        ticks = []\<rparr>
       ''http://a/b'' 1 ''77'' 0 0 [(''ab'', None), (''cd'', None)]
       \<lparr>repo = \<lparr>downloads = [\<lparr>ID = 1, UserID = 2, Link = ''http://a/b'', FileName = ''77'',
                                 Completed = False, Error = ''''\<rparr>],
                db_faults = [], locks = Map.empty, queue = [], rdb_faults = []\<rparr>,
        files = [''77'' \<mapsto> ''''], fs_faults = [], fs_log = [], http_log = [],
        goroutines = 0\<rparr> =
     (None,
      \<lparr>repo = \<lparr>downloads = [\<lparr>ID = 1, UserID = 2, Link = ''http://a/b'', FileName = ''77'',
                                 Completed = True, Error = ''''\<rparr>],
                db_faults = [], locks = Map.empty, queue = [], rdb_faults = []\<rparr>,
        files = [''77'' \<mapsto> ''abcd''], fs_faults = [],
        fs_log = [Written ''77'' 2, Written ''77'' 2, Synced ''77''], http_log = [],
        goroutines = 0\<rparr>) \<and>
   unflushed 0 (take 2 [Written ''77'' 2, Written ''77'' 2, Synced ''77''])
     < FlushThresholdBytes + DownloadBuffSizeBytes \<and>
   unflushed 0 [Written ''77'' 2, Written ''77'' 2, Synced ''77''] = 0"
proof -
  let ?e = "\<lparr>now = 50, net = (\<lambda>req. DoOK \<lparr>StatusCode = 200, Body = []\<rparr>),
        url_error = (\<lambda>u. None), cancel_at = None, ctx_err = ''context canceled'',
        ticks = []\<rparr>"
  let ?w = "\<lparr>repo = \<lparr>downloads = [\<lparr>ID = 1, UserID = 2, Link = ''http://a/b'', FileName = ''77'',
                                 Completed = False, Error = ''''\<rparr>],
                db_faults = [], locks = Map.empty, queue = [], rdb_faults = []\<rparr>,
        files = [''77'' \<mapsto> ''''], fs_faults = [], fs_log = [], http_log = [],
        goroutines = 0\<rparr>"
  let ?w' = "\<lparr>repo = \<lparr>downloads = [\<lparr>ID = 1, UserID = 2, Link = ''http://a/b'', FileName = ''77'',
                                 Completed = True, Error = ''''\<rparr>],
                db_faults = [], locks = Map.empty, queue = [], rdb_faults = []\<rparr>,
        files = [''77'' \<mapsto> ''abcd''], fs_faults = [],
        fs_log = [Written ''77'' 2, Written ''77'' 2, Synced ''77''], http_log = [],
        goroutines = 0\<rparr>"
  let ?body = "[(''ab'', None), (''cd'', None)] :: (bytes \<times> read_error option) list"
  have chunks: "list_all (\<lambda>rd. length (fst rd) \<le> DownloadBuffSizeBytes) ?body"
    by (simp add: DownloadBuffSizeBytes_def)
  have run: "stream_loop ?e ''http://a/b'' 1 ''77'' 0 0 ?body ?w = (None, ?w')"
    by (simp add: consumer_defs repository_defs FlushThresholdBytes_def
        DownloadBuffSizeBytes_def)
  from flush_bound [OF chunks run] obtain evs where
    log: "fs_log ?w' = fs_log ?w @ evs"
    and bound: "\<forall>i \<le> length evs.
      unflushed 0 (take i evs) < FlushThresholdBytes + DownloadBuffSizeBytes"
    and final: "(None :: string option) = None \<longrightarrow>
      evs \<noteq> [] \<and> last evs = Synced ''77'' \<and> unflushed 0 evs = 0"
    by blast
  from log have evs: "evs = [Written ''77'' 2, Written ''77'' 2, Synced ''77'']"
    by simp
  have "2 \<le> length evs" by (simp add: evs)
  with bound have two: "unflushed 0 (take 2 evs) < FlushThresholdBytes + DownloadBuffSizeBytes"
    by blast
  have zero: "unflushed 0 evs = 0"
    using final by simp
  from run two zero show ?thesis
    unfolding evs by (intro conjI)
qed

end
